theory Spec2Isabelle
  imports Main "HOL-Library.Multiset"
begin

section \<open>JavaScript primitives used by the handlers\<close>

text \<open>
  The handlers of \<^verbatim>\<open>src/index.ts\<close> are written against untyped JSON. The model types the
  upstream JSON by the shape the code reads: an object is a record, a property that may be
  absent (\<^verbatim>\<open>undefined\<close>) is an \<open>option\<close>, an array is a list. Numbers that the code
  subtracts or compares (ranks, limits, the millisecond value of a parsed date) are
  \<open>int\<close>; a date whose parse is \<^verbatim>\<open>NaN\<close> is outside the model. Strings are ASCII.
\<close>

text \<open>\<^verbatim>\<open>Array.prototype.slice(start, end)\<close> on integer arguments: a negative index counts
  from the end of the array, and both indices are clamped to the array.\<close>

definition slice :: "int \<Rightarrow> int \<Rightarrow> 'a list \<Rightarrow> 'a list" where
  "slice start fin xs =
     (let len = int (length xs);
          k = (if start < 0 then max (len + start) 0 else min start len);
          final = (if fin < 0 then max (len + fin) 0 else min fin len)
      in take (nat (final - k)) (drop (nat k) xs))"

text \<open>\<^verbatim>\<open>xs?.[0]\<close> on an array: the first element, \<^verbatim>\<open>undefined\<close> on the empty array.\<close>

definition first :: "'a list \<Rightarrow> 'a option" where
  "first xs = (case xs of [] \<Rightarrow> None | x # _ \<Rightarrow> Some x)"

text \<open>\<^verbatim>\<open>x || []\<close>: an array is truthy even when empty.\<close>

definition or_list :: "'a list option \<Rightarrow> 'a list" where
  "or_list x = (case x of None \<Rightarrow> [] | Some xs \<Rightarrow> xs)"

text \<open>\<^verbatim>\<open>Boolean(s)\<close> for a string that may be absent: the empty string is falsy.\<close>

definition truthy :: "string option \<Rightarrow> bool" where
  "truthy s = (case s of None \<Rightarrow> False | Some t \<Rightarrow> t \<noteq> [])"

text \<open>\<^verbatim>\<open>s || d\<close> with a string default.\<close>

definition or_str :: "string option \<Rightarrow> string \<Rightarrow> string" where
  "or_str s d = (case s of None \<Rightarrow> d | Some t \<Rightarrow> if t = [] then d else t)"

text \<open>\<^verbatim>\<open>b || false\<close>.\<close>

definition or_false :: "bool option \<Rightarrow> bool" where
  "or_false b = (case b of None \<Rightarrow> False | Some v \<Rightarrow> v)"

text \<open>\<^verbatim>\<open>String.prototype.toLowerCase\<close> on ASCII.\<close>

definition lower_char :: "char \<Rightarrow> char" where
  "lower_char c =
     (case map_of (zip ''ABCDEFGHIJKLMNOPQRSTUVWXYZ'' ''abcdefghijklmnopqrstuvwxyz'') c of
        None \<Rightarrow> c
      | Some l \<Rightarrow> l)"

definition toLowerCase :: "string \<Rightarrow> string" where
  "toLowerCase s = map lower_char s"

text \<open>\<^verbatim>\<open>String.prototype.startsWith\<close> and \<^verbatim>\<open>String.prototype.includes\<close>.\<close>

fun startsWith :: "string \<Rightarrow> string \<Rightarrow> bool" where
  "startsWith s [] = True"
| "startsWith [] (q # qs) = False"
| "startsWith (c # cs) (q # qs) = (c = q \<and> startsWith cs qs)"

fun includes_str :: "string \<Rightarrow> string \<Rightarrow> bool" where
  "includes_str [] q = startsWith [] q"
| "includes_str (c # cs) q = (startsWith (c # cs) q \<or> includes_str cs q)"

text \<open>\<^verbatim>\<open>Array.prototype.sort(cmp)\<close>: the sort is stable, so for a comparator that is a
  consistent ordering the result is the one of a stable insertion sort: an element is
  placed in front of the first element it does not compare greater than.\<close>

fun insert_sorted :: "('a \<Rightarrow> 'a \<Rightarrow> int) \<Rightarrow> 'a \<Rightarrow> 'a list \<Rightarrow> 'a list" where
  "insert_sorted cmp x [] = [x]"
| "insert_sorted cmp x (y # ys) =
     (if cmp x y \<le> 0 then x # y # ys else y # insert_sorted cmp x ys)"

definition array_sort :: "('a \<Rightarrow> 'a \<Rightarrow> int) \<Rightarrow> 'a list \<Rightarrow> 'a list" where
  "array_sort cmp xs = foldr (insert_sorted cmp) xs []"


section \<open>Upstream client\<close>

datatype error = NetworkError | ESPN_API_error nat | SyntaxError | ZodError

text \<open>A response of \<^verbatim>\<open>fetch\<close>: its status and what \<^verbatim>\<open>response.json()\<close> parses the body
  to (\<open>None\<close> when the body is not JSON).\<close>

record 'a response =
  status :: nat
  body :: "'a option"

text \<open>\<^verbatim>\<open>response.ok\<close>, as the Fetch standard defines it.\<close>

definition ok :: "'a response \<Rightarrow> bool" where
  "ok r = (200 \<le> status r \<and> status r \<le> 299)"

definition json :: "'a response \<Rightarrow> error + 'a" where
  "json r = (case body r of None \<Rightarrow> Inl SyntaxError | Some v \<Rightarrow> Inr v)"

text \<open>The network answers a URL with a response, or not at all (\<^verbatim>\<open>fetch\<close> rejects).\<close>

type_synonym 'a network = "string \<Rightarrow> 'a response option"

definition fetchESPN :: "'a network \<Rightarrow> string \<Rightarrow> error + 'a" where
  "fetchESPN net url =
     (case net url of
        None \<Rightarrow> Inl NetworkError
      | Some response \<Rightarrow>
          if \<not> ok response then Inl (ESPN_API_error (status response))
          else json response)"

text \<open>\<^verbatim>\<open>Promise.all\<close>: all results in order, or a rejection. When several promises
  reject, the model reports the first in list order.\<close>

fun promise_all :: "(error + 'a) list \<Rightarrow> error + 'a list" where
  "promise_all [] = Inr []"
| "promise_all (p # ps) =
     (case p of
        Inl e \<Rightarrow> Inl e
      | Inr v \<Rightarrow> (case promise_all ps of Inl e \<Rightarrow> Inl e | Inr vs \<Rightarrow> Inr (v # vs)))"

definition atp_rankings_url :: string where
  "atp_rankings_url = ''https://site.api.espn.com/apis/site/v2/sports/tennis/atp/rankings''"

definition wta_rankings_url :: string where
  "wta_rankings_url = ''https://site.api.espn.com/apis/site/v2/sports/tennis/wta/rankings''"

definition atp_news_url :: string where
  "atp_news_url = ''https://site.api.espn.com/apis/site/v2/sports/tennis/atp/news''"

definition wta_news_url :: string where
  "wta_news_url = ''https://site.api.espn.com/apis/site/v2/sports/tennis/wta/news''"

definition atp_scoreboard_url :: string where
  "atp_scoreboard_url = ''https://site.api.espn.com/apis/site/v2/sports/tennis/atp/scoreboard''"

definition wta_scoreboard_url :: string where
  "wta_scoreboard_url = ''https://site.api.espn.com/apis/site/v2/sports/tennis/wta/scoreboard''"


section \<open>Input schemas\<close>

text \<open>A request body is a JSON object: a property is a JSON value, \<open>JUndefined\<close> when the
  object does not have it.\<close>

datatype jvalue =
  JUndefined | JNull | JBool bool | JNum int | JStr string
  | JArray "jvalue list" | JObject "(string \<times> jvalue) list"

type_synonym raw_input = "string \<Rightarrow> jvalue"

text \<open>\<^verbatim>\<open>z.string()\<close>: any string, the empty one too.\<close>

definition z_string :: "jvalue \<Rightarrow> error + string" where
  "z_string v = (case v of JStr s \<Rightarrow> Inr s | _ \<Rightarrow> Inl ZodError)"

text \<open>\<^verbatim>\<open>z.number().optional().default(d)\<close>: any number, \<open>d\<close> when absent.\<close>

definition z_number_default :: "int \<Rightarrow> jvalue \<Rightarrow> error + int" where
  "z_number_default d v =
     (case v of JUndefined \<Rightarrow> Inr d | JNum n \<Rightarrow> Inr n | _ \<Rightarrow> Inl ZodError)"

text \<open>\<^verbatim>\<open>z.enum(['atp', 'wta', 'both']).optional().default('both')\<close>.\<close>

definition z_tour :: "jvalue \<Rightarrow> error + string" where
  "z_tour v =
     (case v of
        JUndefined \<Rightarrow> Inr ''both''
      | JStr s \<Rightarrow> if s = ''atp'' \<or> s = ''wta'' \<or> s = ''both'' then Inr s else Inl ZodError
      | _ \<Rightarrow> Inl ZodError)"


section \<open>Rankings: upstream shape\<close>

record link =
  href :: "string option"

record athlete =
  displayName :: "string option"
  firstName :: "string option"
  lastName :: "string option"
  id' :: "string option"
  links :: "link list option"

record rank_entry =
  current :: int
  previous :: int
  trend :: "string option"
  athlete :: "athlete option"
  points :: int

record ranking =
  ranks :: "rank_entry list option"

record rankings_data =
  rankings :: "ranking list option"


section \<open>Overview\<close>

record overview_player =
  rank :: int
  name :: "string option"
  points :: int

record overview_group =
  label :: string
  players :: "overview_player list"

record overview_output =
  atp :: overview_group
  wta :: overview_group
  fetchedAt :: string
  dataSource :: string

text \<open>\<^verbatim>\<open>data.rankings?.[0]?.ranks\<close>.\<close>

definition first_ranks :: "rankings_data \<Rightarrow> rank_entry list option" where
  "first_ranks data = Option.bind (Option.bind (rankings_data.rankings data) first) ranks"

text \<open>\<^verbatim>\<open>data.rankings?.[0]?.ranks?.slice(0, 5).map(...) || []\<close>, the expression of
  \<^verbatim>\<open>atpTop5\<close> and of \<^verbatim>\<open>wtaTop5\<close>.\<close>

definition top5 :: "rankings_data \<Rightarrow> overview_player list" where
  "top5 data =
     or_list (map_option
       (\<lambda>rs. map (\<lambda>r. \<lparr> rank = current r,
                        name = Option.bind (rank_entry.athlete r) displayName,
                        points = rank_entry.points r \<rparr>)
                 (slice 0 5 rs))
       (first_ranks data))"

definition overview_handler :: "rankings_data network \<Rightarrow> string \<Rightarrow> error + overview_output" where
  "overview_handler net now =
     (case fetchESPN net atp_rankings_url of
        Inl e \<Rightarrow> Inl e
      | Inr atpData \<Rightarrow>
          (case fetchESPN net wta_rankings_url of
             Inl e \<Rightarrow> Inl e
           | Inr wtaData \<Rightarrow>
               (let atpTop5 = top5 atpData;
                    wtaTop5 = top5 wtaData
                in Inr \<lparr> atp = \<lparr> label = ''ATP Top 5'', players = atpTop5 \<rparr>,
                         wta = \<lparr> label = ''WTA Top 5'', players = wtaTop5 \<rparr>,
                         fetchedAt = now,
                         dataSource = ''ESPN Tennis API (live)'' \<rparr>)))"


section \<open>Full rankings\<close>

record ranking_entry =
  rank :: int
  previousRank :: int
  movement :: int
  trend :: "string option"
  name :: "string option"
  firstName :: "string option"
  lastName :: "string option"
  id' :: "string option"
  points :: int
  profileUrl :: "string option"

record rankings_output =
  tour :: string
  totalRanked :: nat
  rankings :: "ranking_entry list"
  fetchedAt :: string

text \<open>\<^verbatim>\<open>data.rankings?.[0]?.ranks?.slice(0, limit).map(...) || []\<close>, the expression of
  \<^verbatim>\<open>rankings\<close> in both ranking handlers.\<close>

definition ranking_entries :: "rankings_data \<Rightarrow> int \<Rightarrow> ranking_entry list" where
  "ranking_entries data limit =
     or_list (map_option
       (\<lambda>rs. map (\<lambda>r. \<lparr> rank = current r,
                        previousRank = previous r,
                        movement = previous r - current r,
                        trend = rank_entry.trend r,
                        name = Option.bind (rank_entry.athlete r) displayName,
                        firstName = Option.bind (rank_entry.athlete r) athlete.firstName,
                        lastName = Option.bind (rank_entry.athlete r) athlete.lastName,
                        id' = Option.bind (rank_entry.athlete r) athlete.id',
                        points = rank_entry.points r,
                        profileUrl =
                          Option.bind (Option.bind (Option.bind (rank_entry.athlete r) links) first) href \<rparr>)
                 (slice 0 limit rs))
       (first_ranks data))"

definition atp_rankings_handler ::
  "rankings_data network \<Rightarrow> string \<Rightarrow> int \<Rightarrow> error + rankings_output" where
  "atp_rankings_handler net now input_limit =
     (case fetchESPN net atp_rankings_url of
        Inl e \<Rightarrow> Inl e
      | Inr data \<Rightarrow>
          (let limit = min input_limit 100;
               rankings = ranking_entries data limit
           in Inr \<lparr> tour = ''ATP'',
                    totalRanked = length rankings,
                    rankings = rankings,
                    fetchedAt = now \<rparr>))"

definition wta_rankings_handler ::
  "rankings_data network \<Rightarrow> string \<Rightarrow> int \<Rightarrow> error + rankings_output" where
  "wta_rankings_handler net now input_limit =
     (case fetchESPN net wta_rankings_url of
        Inl e \<Rightarrow> Inl e
      | Inr data \<Rightarrow>
          (let limit = min input_limit 100;
               rankings = ranking_entries data limit
           in Inr \<lparr> tour = ''WTA'',
                    totalRanked = length rankings,
                    rankings = rankings,
                    fetchedAt = now \<rparr>))"

text \<open>The entrypoints: the input is parsed by the schema, then handed to the handler.\<close>

definition atp_rankings_entrypoint ::
  "rankings_data network \<Rightarrow> string \<Rightarrow> raw_input \<Rightarrow> error + rankings_output" where
  "atp_rankings_entrypoint net now raw =
     (case z_number_default 50 (raw ''limit'') of
        Inl e \<Rightarrow> Inl e
      | Inr limit \<Rightarrow> atp_rankings_handler net now limit)"

definition wta_rankings_entrypoint ::
  "rankings_data network \<Rightarrow> string \<Rightarrow> raw_input \<Rightarrow> error + rankings_output" where
  "wta_rankings_entrypoint net now raw =
     (case z_number_default 50 (raw ''limit'') of
        Inl e \<Rightarrow> Inl e
      | Inr limit \<Rightarrow> wta_rankings_handler net now limit)"


section \<open>News\<close>

record image =
  url :: "string option"

record article_links =
  web :: "link option"
  mobile :: "link option"

record category =
  description :: "string option"

text \<open>An upstream article. \<open>published\<close> is the number that
  \<^verbatim>\<open>new Date(a.published).getTime()\<close> yields.\<close>

record espn_article =
  id' :: "string option"
  headline :: "string option"
  description :: "string option"
  published :: int
  lastModified :: "string option"
  type :: "string option"
  images :: "image list option"
  links :: "article_links option"
  categories :: "category list option"

record news_data =
  articles :: "espn_article list option"

record article =
  id' :: "string option"
  headline :: "string option"
  description :: "string option"
  published :: int
  lastModified :: "string option"
  type :: "string option"
  imageUrl :: "string option"
  link :: "string option"
  categories :: "string option list option"

record news_output =
  tour :: string
  count' :: nat
  articles :: "article list"
  fetchedAt :: string

definition news_urls :: "string \<Rightarrow> string list" where
  "news_urls input_tour =
     (if input_tour = ''atp'' \<or> input_tour = ''both'' then [atp_news_url] else []) @
     (if input_tour = ''wta'' \<or> input_tour = ''both'' then [wta_news_url] else [])"

definition article_of :: "espn_article \<Rightarrow> article" where
  "article_of a =
     \<lparr> id' = espn_article.id' a,
       headline = espn_article.headline a,
       description = espn_article.description a,
       published = espn_article.published a,
       lastModified = espn_article.lastModified a,
       type = espn_article.type a,
       imageUrl = Option.bind (Option.bind (images a) first) url,
       link =
         (let w = Option.bind (Option.bind (espn_article.links a) web) href
          in if truthy w then w else Option.bind (Option.bind (espn_article.links a) mobile) href),
       categories =
         map_option (\<lambda>cs. filter truthy (map category.description cs)) (espn_article.categories a) \<rparr>"

definition allArticles :: "news_data list \<Rightarrow> article list" where
  "allArticles results =
     concat (map (\<lambda>data. map article_of (or_list (news_data.articles data))) results)"

text \<open>The comparator of the sort: newest first.\<close>

definition cmp_published :: "article \<Rightarrow> article \<Rightarrow> int" where
  "cmp_published a b = article.published b - article.published a"

text \<open>The filter callback with its \<^verbatim>\<open>seen\<close> set: an article passes when its id has not
  been seen, and its id is then added.\<close>

fun filter_seen :: "string option set \<Rightarrow> article list \<Rightarrow> article list" where
  "filter_seen seen [] = []"
| "filter_seen seen (a # rest) =
     (if article.id' a \<in> seen then filter_seen seen rest
      else a # filter_seen (insert (article.id' a) seen) rest)"

definition sortedArticles :: "news_data list \<Rightarrow> article list" where
  "sortedArticles results = array_sort cmp_published (allArticles results)"

definition uniqueArticles :: "news_data list \<Rightarrow> int \<Rightarrow> article list" where
  "uniqueArticles results limit = slice 0 limit (filter_seen {} (sortedArticles results))"

definition news_handler ::
  "news_data network \<Rightarrow> string \<Rightarrow> string \<Rightarrow> int \<Rightarrow> error + news_output" where
  "news_handler net now input_tour input_limit =
     (case promise_all (map (fetchESPN net) (news_urls input_tour)) of
        Inl e \<Rightarrow> Inl e
      | Inr results \<Rightarrow>
          (let limit = min input_limit 25;
               unique = uniqueArticles results limit
           in Inr \<lparr> tour = input_tour,
                    count' = length unique,
                    articles = unique,
                    fetchedAt = now \<rparr>))"


section \<open>Live matches\<close>

record status_type =
  description :: "string option"
  state :: "string option"
  completed :: "bool option"

record comp_status =
  type :: "status_type option"

record round =
  displayName :: "string option"

record linescore =
  value' :: int

record competitor =
  athlete :: "athlete option"
  seed :: "int option"
  winner :: "bool option"
  linescores :: "linescore list option"

record venue =
  fullName :: "string option"

text \<open>\<open>startDate\<close> is the number that \<^verbatim>\<open>new Date(comp.startDate).getTime()\<close> yields.\<close>

record competition =
  status :: "comp_status option"
  competitors :: "competitor list option"
  round :: "round option"
  startDate :: int
  venue :: "venue option"

record event =
  name :: "string option"
  competitions :: "competition list option"
  venue :: "venue option"

record scoreboard_data =
  events :: "event list option"

record match_player =
  name :: string
  seed :: "int option"
  isWinner :: bool
  sets :: "int list"

record match_entry =
  tour :: string
  tournament :: string
  round :: string
  status :: string
  isLive :: bool
  isComplete :: bool
  players :: "match_player list"
  startTime :: int
  venue :: string

record live_output =
  tour :: string
  totalMatches :: nat
  liveCount :: nat
  matches :: "match_entry list"
  fetchedAt :: string

definition live_urls :: "string \<Rightarrow> (string \<times> string) list" where
  "live_urls input_tour =
     (if input_tour = ''atp'' \<or> input_tour = ''both''
      then [(''ATP'', atp_scoreboard_url)] else []) @
     (if input_tour = ''wta'' \<or> input_tour = ''both''
      then [(''WTA'', wta_scoreboard_url)] else [])"

text \<open>The callback of \<^verbatim>\<open>urls.map\<close>: fetch and keep the tour label.\<close>

definition fetch_tour :: "'a network \<Rightarrow> string \<times> string \<Rightarrow> error + (string \<times> 'a)" where
  "fetch_tour net tu =
     (case fetchESPN net (snd tu) of Inl e \<Rightarrow> Inl e | Inr data \<Rightarrow> Inr (fst tu, data))"

definition player_of :: "competitor \<Rightarrow> match_player" where
  "player_of c =
     \<lparr> name = or_str (Option.bind (competitor.athlete c) athlete.displayName) ''Unknown'',
       seed = competitor.seed c,
       isWinner = or_false (winner c),
       sets = map value' (or_list (linescores c)) \<rparr>"

text \<open>The body of the innermost loop: the match pushed for one competition.\<close>

definition match_of :: "string \<Rightarrow> event \<Rightarrow> competition \<Rightarrow> match_entry" where
  "match_of tour' event comp' =
     (let status = or_str (Option.bind (Option.bind (competition.status comp') comp_status.type)
                             status_type.description) ''Unknown'';
          competitors = or_list (competition.competitors comp')
      in \<lparr> match_entry.tour = tour',
           tournament = or_str (event.name event) ''Tournament'',
           round = or_str (Option.bind (competition.round comp') round.displayName) '''',
           status = status,
           isLive =
             (Option.bind (Option.bind (competition.status comp') comp_status.type) state = Some ''in''),
           isComplete =
             or_false (Option.bind (Option.bind (competition.status comp') comp_status.type) completed),
           players = map player_of competitors,
           startTime = startDate comp',
           venue = or_str (Option.bind (event.venue event) fullName)
                     (or_str (Option.bind (competition.venue comp') fullName) '''') \<rparr>)"

text \<open>The three nested loops push one match per competition, in order.\<close>

definition collect_matches :: "(string \<times> scoreboard_data) list \<Rightarrow> match_entry list" where
  "collect_matches results =
     concat (map (\<lambda>(tour, data).
       concat (map (\<lambda>event. map (match_of tour event) (or_list (competitions event)))
                   (or_list (events data))))
       results)"

text \<open>The comparator of the sort: live first, then by start time.\<close>

definition cmp_match :: "match_entry \<Rightarrow> match_entry \<Rightarrow> int" where
  "cmp_match a b =
     (if isLive a \<and> \<not> isLive b then - 1
      else if \<not> isLive a \<and> isLive b then 1
      else startTime a - startTime b)"

definition live_matches_handler ::
  "scoreboard_data network \<Rightarrow> string \<Rightarrow> string \<Rightarrow> error + live_output" where
  "live_matches_handler net now input_tour =
     (case promise_all (map (fetch_tour net) (live_urls input_tour)) of
        Inl e \<Rightarrow> Inl e
      | Inr results \<Rightarrow>
          (let matches = array_sort cmp_match (collect_matches results)
           in Inr \<lparr> tour = input_tour,
                    totalMatches = length matches,
                    liveCount = length (filter isLive matches),
                    matches = matches,
                    fetchedAt = now \<rparr>))"


section \<open>Player search\<close>

record search_hit =
  tour :: string
  rank :: int
  previousRank :: int
  movement :: int
  name :: "string option"
  firstName :: "string option"
  lastName :: "string option"
  id' :: "string option"
  points :: int
  trend :: "string option"
  profileUrl :: "string option"

record search_output =
  query :: string
  tour :: string
  found :: nat
  players :: "search_hit list"
  fetchedAt :: string

definition search_urls :: "string \<Rightarrow> (string \<times> string) list" where
  "search_urls input_tour =
     (if input_tour = ''atp'' \<or> input_tour = ''both''
      then [(''ATP'', atp_rankings_url)] else []) @
     (if input_tour = ''wta'' \<or> input_tour = ''both''
      then [(''WTA'', wta_rankings_url)] else [])"

text \<open>The condition of the \<^verbatim>\<open>if\<close> in the loop, for the lower-cased query.\<close>

definition matches_query :: "string \<Rightarrow> rank_entry \<Rightarrow> bool" where
  "matches_query query' r =
     (let name = or_str (map_option toLowerCase
                   (Option.bind (rank_entry.athlete r) athlete.displayName)) '''';
          firstName = or_str (map_option toLowerCase
                   (Option.bind (rank_entry.athlete r) athlete.firstName)) '''';
          lastName = or_str (map_option toLowerCase
                   (Option.bind (rank_entry.athlete r) athlete.lastName)) ''''
      in includes_str name query' \<or> includes_str firstName query' \<or> includes_str lastName query')"

definition hit_of :: "string \<Rightarrow> rank_entry \<Rightarrow> search_hit" where
  "hit_of tour' r =
     \<lparr> search_hit.tour = tour',
       rank = current r,
       previousRank = previous r,
       movement = previous r - current r,
       name = Option.bind (rank_entry.athlete r) athlete.displayName,
       firstName = Option.bind (rank_entry.athlete r) athlete.firstName,
       lastName = Option.bind (rank_entry.athlete r) athlete.lastName,
       id' = Option.bind (rank_entry.athlete r) athlete.id',
       points = rank_entry.points r,
       trend = rank_entry.trend r,
       profileUrl =
         Option.bind (Option.bind (Option.bind (rank_entry.athlete r) athlete.links) first) href \<rparr>"

text \<open>The two nested loops push one hit per matching entry, in order.\<close>

definition collect_players :: "string \<Rightarrow> (string \<times> rankings_data) list \<Rightarrow> search_hit list" where
  "collect_players query' results =
     concat (map (\<lambda>(tour, data).
       map (hit_of tour) (filter (matches_query query') (or_list (first_ranks data))))
       results)"

definition cmp_rank :: "search_hit \<Rightarrow> search_hit \<Rightarrow> int" where
  "cmp_rank a b = search_hit.rank a - search_hit.rank b"

definition player_search_handler ::
  "rankings_data network \<Rightarrow> string \<Rightarrow> string \<Rightarrow> string \<Rightarrow> error + search_output" where
  "player_search_handler net now input_query input_tour =
     (let query = toLowerCase input_query
      in case promise_all (map (fetch_tour net) (search_urls input_tour)) of
           Inl e \<Rightarrow> Inl e
         | Inr results \<Rightarrow>
             (let players = collect_players query results
              in Inr \<lparr> query = input_query,
                       tour = input_tour,
                       found = length players,
                       players = array_sort cmp_rank players,
                       fetchedAt = now \<rparr>))"

definition player_search_entrypoint ::
  "rankings_data network \<Rightarrow> string \<Rightarrow> raw_input \<Rightarrow> error + search_output" where
  "player_search_entrypoint net now raw =
     (case z_string (raw ''query'') of
        Inl e \<Rightarrow> Inl e
      | Inr q \<Rightarrow>
          (case z_tour (raw ''tour'') of
             Inl e \<Rightarrow> Inl e
           | Inr t \<Rightarrow> player_search_handler net now q t))"


section \<open>Example data\<close>

definition ex_now :: string where
  "ex_now = ''2026-01-12T09:00:00.000Z''"

definition ex_athlete :: "string \<Rightarrow> string \<Rightarrow> string \<Rightarrow> athlete" where
  "ex_athlete dn fnm lnm =
     \<lparr> athlete.displayName = Some dn, athlete.firstName = Some fnm, athlete.lastName = Some lnm,
       athlete.id' = None, athlete.links = None \<rparr>"

definition ex_rank :: "int \<Rightarrow> int \<Rightarrow> athlete \<Rightarrow> rank_entry" where
  "ex_rank cur prev a =
     \<lparr> current = cur, previous = prev, rank_entry.trend = None,
       rank_entry.athlete = Some a, rank_entry.points = 1000 \<rparr>"

definition ex_alcaraz :: rank_entry where
  "ex_alcaraz = ex_rank 1 2 (ex_athlete ''Carlos Alcaraz'' ''Carlos'' ''Alcaraz'')"

definition ex_djokovic :: rank_entry where
  "ex_djokovic = ex_rank 2 1 (ex_athlete ''Novak Djokovic'' ''Novak'' ''Djokovic'')"

definition ex_sabalenka :: rank_entry where
  "ex_sabalenka = ex_rank 1 1 (ex_athlete ''Aryna Sabalenka'' ''Aryna'' ''Sabalenka'')"

definition ex_swiatek :: rank_entry where
  "ex_swiatek = ex_rank 2 3 (ex_athlete ''Iga Swiatek'' ''Iga'' ''Swiatek'')"

definition ex_rankings_data :: "rank_entry list \<Rightarrow> rankings_data" where
  "ex_rankings_data rs = \<lparr> rankings_data.rankings = Some [\<lparr> ranks = Some rs \<rparr>] \<rparr>"

text \<open>An upstream with two ranked players per tour.\<close>

definition ex_net :: "rankings_data network" where
  "ex_net u =
     (if u = atp_rankings_url
      then Some \<lparr> response.status = 200, body = Some (ex_rankings_data [ex_alcaraz, ex_djokovic]) \<rparr>
      else if u = wta_rankings_url
      then Some \<lparr> response.status = 200, body = Some (ex_rankings_data [ex_sabalenka, ex_swiatek]) \<rparr>
      else None)"

text \<open>An upstream whose ranking lists are empty.\<close>

definition ex_empty_net :: "rankings_data network" where
  "ex_empty_net u = Some \<lparr> response.status = 200, body = Some (ex_rankings_data []) \<rparr>"

text \<open>An upstream that lists 102 ranked players per tour.\<close>

definition ex_long_net :: "rankings_data network" where
  "ex_long_net u =
     Some \<lparr> response.status = 200, body = Some (ex_rankings_data (replicate 102 ex_alcaraz)) \<rparr>"

text \<open>An upstream that answers 503.\<close>

definition ex_down_net :: "rankings_data network" where
  "ex_down_net u = Some \<lparr> response.status = 503, body = None \<rparr>"

text \<open>Request bodies.\<close>

definition ex_limit_input :: "int \<Rightarrow> raw_input" where
  "ex_limit_input n k = (if k = ''limit'' then JNum n else JUndefined)"

definition ex_query_input :: "jvalue \<Rightarrow> raw_input" where
  "ex_query_input v k = (if k = ''query'' then v else JUndefined)"

text \<open>The entry that both ranking handlers return for \<open>ex_alcaraz\<close>.\<close>

definition ex_alcaraz_entry :: ranking_entry where
  "ex_alcaraz_entry =
     \<lparr> ranking_entry.rank = 1, ranking_entry.previousRank = 2, ranking_entry.movement = 1,
       ranking_entry.trend = None, ranking_entry.name = Some ''Carlos Alcaraz'',
       ranking_entry.firstName = Some ''Carlos'', ranking_entry.lastName = Some ''Alcaraz'',
       ranking_entry.id' = None, ranking_entry.points = 1000, ranking_entry.profileUrl = None \<rparr>"

definition ex_sabalenka_entry :: ranking_entry where
  "ex_sabalenka_entry =
     \<lparr> ranking_entry.rank = 1, ranking_entry.previousRank = 1, ranking_entry.movement = 0,
       ranking_entry.trend = None, ranking_entry.name = Some ''Aryna Sabalenka'',
       ranking_entry.firstName = Some ''Aryna'', ranking_entry.lastName = Some ''Sabalenka'',
       ranking_entry.id' = None, ranking_entry.points = 1000, ranking_entry.profileUrl = None \<rparr>"

definition ex_rankings_output :: "string \<Rightarrow> ranking_entry list \<Rightarrow> rankings_output" where
  "ex_rankings_output lbl es =
     \<lparr> rankings_output.tour = lbl, totalRanked = length es, rankings = es,
       rankings_output.fetchedAt = ex_now \<rparr>"

definition ex_search_output :: "string \<Rightarrow> search_hit list \<Rightarrow> search_output" where
  "ex_search_output q hs =
     \<lparr> query = q, search_output.tour = ''both'', found = length hs, players = hs,
       search_output.fetchedAt = ex_now \<rparr>"

definition ex_overview_player :: overview_player where
  "ex_overview_player =
     \<lparr> overview_player.rank = 1, overview_player.name = Some ''Carlos Alcaraz'',
       overview_player.points = 1000 \<rparr>"

definition ex_overview_output :: overview_output where
  "ex_overview_output =
     \<lparr> atp = \<lparr> label = ''ATP Top 5'', overview_group.players = replicate 5 ex_overview_player \<rparr>,
       wta = \<lparr> label = ''WTA Top 5'', overview_group.players = replicate 5 ex_overview_player \<rparr>,
       overview_output.fetchedAt = ex_now,
       dataSource = ''ESPN Tennis API (live)'' \<rparr>"

text \<open>Two news feeds that share the id \<open>b\<close>; the ATP feed has the older instance.\<close>

definition ex_espn_article :: "string \<Rightarrow> int \<Rightarrow> espn_article" where
  "ex_espn_article i t =
     \<lparr> espn_article.id' = Some i, espn_article.headline = None, espn_article.description = None,
       espn_article.published = t, espn_article.lastModified = None, espn_article.type = None,
       images = None, espn_article.links = None, espn_article.categories = None \<rparr>"

definition ex_article :: "string \<Rightarrow> int \<Rightarrow> article" where
  "ex_article i t =
     \<lparr> article.id' = Some i, article.headline = None, article.description = None,
       article.published = t, article.lastModified = None, article.type = None,
       imageUrl = None, link = None, article.categories = None \<rparr>"

definition ex_news_data :: "espn_article list \<Rightarrow> news_data" where
  "ex_news_data xs = \<lparr> news_data.articles = Some xs \<rparr>"

definition ex_news_net :: "news_data network" where
  "ex_news_net u =
     (if u = atp_news_url
      then Some \<lparr> response.status = 200,
                  body = Some (ex_news_data [ex_espn_article ''b'' 1, ex_espn_article ''a'' 3]) \<rparr>
      else if u = wta_news_url
      then Some \<lparr> response.status = 200, body = Some (ex_news_data [ex_espn_article ''b'' 2]) \<rparr>
      else None)"

definition ex_news_results :: "news_data list" where
  "ex_news_results =
     [ex_news_data [ex_espn_article ''b'' 1, ex_espn_article ''a'' 3],
      ex_news_data [ex_espn_article ''b'' 2]]"

definition ex_news_output :: "article list \<Rightarrow> news_output" where
  "ex_news_output xs =
     \<lparr> news_output.tour = ''both'', count' = length xs, news_output.articles = xs,
       news_output.fetchedAt = ex_now \<rparr>"

text \<open>A scoreboard per tour, with live and other matches out of order.\<close>

definition ex_competition :: "string \<Rightarrow> int \<Rightarrow> competition" where
  "ex_competition st t =
     \<lparr> competition.status =
         Some \<lparr> comp_status.type =
           Some \<lparr> status_type.description = None, state = Some st, completed = None \<rparr> \<rparr>,
       competitors = None, competition.round = None, startDate = t,
       competition.venue = None \<rparr>"

definition ex_event :: "competition list \<Rightarrow> event" where
  "ex_event cs =
     \<lparr> event.name = Some ''Australian Open'', competitions = Some cs, event.venue = None \<rparr>"

definition ex_live_net :: "scoreboard_data network" where
  "ex_live_net u =
     (if u = atp_scoreboard_url
      then Some \<lparr> response.status = 200,
                  body = Some \<lparr> events = Some [ex_event [ex_competition ''post'' 10,
                                                         ex_competition ''in'' 30]] \<rparr> \<rparr>
      else if u = wta_scoreboard_url
      then Some \<lparr> response.status = 200,
                  body = Some \<lparr> events = Some [ex_event [ex_competition ''in'' 20],
                                               ex_event [ex_competition ''pre'' 5]] \<rparr> \<rparr>
      else None)"

definition ex_match :: "string \<Rightarrow> bool \<Rightarrow> int \<Rightarrow> match_entry" where
  "ex_match lbl live t =
     \<lparr> match_entry.tour = lbl, tournament = ''Australian Open'', match_entry.round = [],
       match_entry.status = ''Unknown'', isLive = live, isComplete = False,
       match_entry.players = [], startTime = t, match_entry.venue = [] \<rparr>"

definition ex_live_output :: live_output where
  "ex_live_output =
     \<lparr> live_output.tour = ''both'', totalMatches = 4, liveCount = 2,
       matches = [ex_match ''WTA'' True 20, ex_match ''ATP'' True 30,
                  ex_match ''WTA'' False 5, ex_match ''ATP'' False 10],
       live_output.fetchedAt = ex_now \<rparr>"

text \<open>What fetching both ranking lists gives, for \<open>ex_net\<close> and for \<open>ex_empty_net\<close>.\<close>

definition ex_search_results :: "(string \<times> rankings_data) list" where
  "ex_search_results =
     [(''ATP'', ex_rankings_data [ex_alcaraz, ex_djokovic]),
      (''WTA'', ex_rankings_data [ex_sabalenka, ex_swiatek])]"

definition ex_empty_results :: "(string \<times> rankings_data) list" where
  "ex_empty_results = [(''ATP'', ex_rankings_data []), (''WTA'', ex_rankings_data [])]"

section \<open>Array primitives\<close>

lemma slice_0_nonneg: "0 \<le> n \<Longrightarrow> slice 0 n xs = take (nat n) xs"
  by (auto simp: slice_def Let_def min_def)

lemma length_slice_0: "0 \<le> n \<Longrightarrow> int (length (slice 0 n xs)) \<le> n"
  by (simp add: slice_0_nonneg)

lemma slice_0_all: "int (length xs) \<le> n \<Longrightarrow> slice 0 n xs = xs"
  by (auto simp: slice_def Let_def min_def)

lemma set_slice: "set (slice a b xs) \<subseteq> set xs"
  unfolding slice_def Let_def
  by (meson set_take_subset set_drop_subset subset_trans)

lemma distinct_map_slice: "distinct (map f xs) \<Longrightarrow> distinct (map f (slice a b xs))"
  unfolding slice_def Let_def
  by (simp add: take_map [symmetric] drop_map [symmetric] del: take_map drop_map)

lemma array_sort_Nil: "array_sort cmp [] = []"
  by (simp add: array_sort_def)

lemma set_insert_sorted: "set (insert_sorted cmp x xs) = insert x (set xs)"
  by (induction xs) auto

lemma set_array_sort: "set (array_sort cmp xs) = set xs"
  by (induction xs) (auto simp: array_sort_def set_insert_sorted)

lemma mset_insert_sorted: "mset (insert_sorted cmp x xs) = add_mset x (mset xs)"
  by (induction xs) auto

lemma mset_array_sort: "mset (array_sort cmp xs) = mset xs"
  by (induction xs) (auto simp: array_sort_def mset_insert_sorted)

lemma length_array_sort: "length (array_sort cmp xs) = length xs"
  using mset_array_sort [of cmp xs] by (metis size_mset)

lemma insert_sorted_key:
  "(\<And>a b. cmp a b \<le> 0 \<longleftrightarrow> f a \<le> f b) \<Longrightarrow> insert_sorted cmp x xs = insort_key f x xs"
  by (induction xs) auto

lemma array_sort_key:
  "(\<And>a b. cmp a b \<le> 0 \<longleftrightarrow> f a \<le> f b) \<Longrightarrow> array_sort cmp xs = sort_key f xs"
  by (induction xs) (auto simp: array_sort_def sort_key_def insert_sorted_key)


section \<open>Upstream client\<close>

text \<open>
  Claim C7. \<open>fetchESPN\<close> fails with the error that carries the HTTP status exactly when a
  response arrived whose status is outside 200..299, and the status carried is the one of
  the response; on a status inside 200..299 it returns the body as \<^verbatim>\<open>response.json()\<close>
  parsed it.
\<close>

theorem fetchESPN_status_error_iff_not_2xx:
  "(\<forall>code. fetchESPN net u = Inl (ESPN_API_error code) \<longleftrightarrow>
      (\<exists>r. net u = Some r \<and> response.status r = code \<and> \<not> (200 \<le> code \<and> code \<le> 299)))
   \<and> (\<forall>r v. net u = Some r \<and> 200 \<le> response.status r \<and> response.status r \<le> 299
        \<and> body r = Some v \<longrightarrow> fetchESPN net u = Inr v)"
  by (auto simp: fetchESPN_def ok_def json_def split: option.splits)

theorem fetchESPN_status_error_iff_not_2xx_witness:
  "fetchESPN ex_down_net atp_rankings_url = Inl (ESPN_API_error 503)
   \<and> ex_down_net atp_rankings_url = Some \<lparr> response.status = 503, body = None \<rparr>
   \<and> ex_net atp_rankings_url =
        Some \<lparr> response.status = 200, body = Some (ex_rankings_data [ex_alcaraz, ex_djokovic]) \<rparr>
   \<and> fetchESPN ex_net atp_rankings_url = Inr (ex_rankings_data [ex_alcaraz, ex_djokovic])"
  using fetchESPN_status_error_iff_not_2xx [of ex_down_net atp_rankings_url]
    fetchESPN_status_error_iff_not_2xx [of ex_net atp_rankings_url]
  by (simp add: ex_down_net_def ex_net_def)


section \<open>Rankings\<close>

lemma ranking_entries_movement:
  "e \<in> set (ranking_entries data limit) \<Longrightarrow>
     ranking_entry.movement e = ranking_entry.previousRank e - ranking_entry.rank e"
  by (auto simp: ranking_entries_def or_list_def split: option.splits)

lemma collect_players_movement:
  "p \<in> set (collect_players q results) \<Longrightarrow>
     search_hit.movement p = search_hit.previousRank p - search_hit.rank p"
  by (auto simp: collect_players_def hit_of_def)

lemma atp_rankings_example:
  "atp_rankings_handler ex_net ex_now 1 = Inr (ex_rankings_output ''ATP'' [ex_alcaraz_entry])"
  by (simp add: atp_rankings_handler_def fetchESPN_def ok_def json_def ranking_entries_def
      first_ranks_def first_def or_list_def slice_def ex_net_def ex_rankings_data_def
      ex_rankings_output_def ex_alcaraz_entry_def ex_alcaraz_def ex_rank_def ex_athlete_def)

lemma wta_rankings_example:
  "wta_rankings_handler ex_net ex_now 1 = Inr (ex_rankings_output ''WTA'' [ex_sabalenka_entry])"
  by (simp add: wta_rankings_handler_def fetchESPN_def ok_def json_def ranking_entries_def
      first_ranks_def first_def or_list_def slice_def ex_net_def ex_rankings_data_def
      ex_rankings_output_def ex_sabalenka_entry_def ex_sabalenka_def ex_rank_def ex_athlete_def
      atp_rankings_url_def wta_rankings_url_def)

lemma player_search_example:
  "player_search_handler ex_net ex_now ''DJOK'' ''both'' =
     Inr (ex_search_output ''DJOK'' [hit_of ''ATP'' ex_djokovic])"
  by (simp add: player_search_handler_def search_urls_def fetch_tour_def fetchESPN_def ok_def
      json_def collect_players_def first_ranks_def first_def or_list_def matches_query_def
      toLowerCase_def lower_char_def or_str_def array_sort_def cmp_rank_def
      ex_net_def ex_rankings_data_def ex_search_output_def ex_alcaraz_def ex_djokovic_def
      ex_sabalenka_def ex_swiatek_def ex_rank_def ex_athlete_def
      atp_rankings_url_def wta_rankings_url_def Let_def)

text \<open>
  Claim C1. In every entry that the atp-rankings handler, the wta-rankings handler and the
  player-search handler return, \<open>movement\<close> is \<open>previousRank\<close> minus \<open>rank\<close>.
\<close>

theorem movement_is_previousRank_minus_rank:
  "(atp_rankings_handler net now limit = Inr out \<longrightarrow>
      (\<forall>e \<in> set (rankings_output.rankings out).
         ranking_entry.movement e = ranking_entry.previousRank e - ranking_entry.rank e))
   \<and> (wta_rankings_handler net now limit = Inr out' \<longrightarrow>
      (\<forall>e \<in> set (rankings_output.rankings out').
         ranking_entry.movement e = ranking_entry.previousRank e - ranking_entry.rank e))
   \<and> (player_search_handler net now q t = Inr sout \<longrightarrow>
      (\<forall>p \<in> set (search_output.players sout).
         search_hit.movement p = search_hit.previousRank p - search_hit.rank p))"
  by (auto simp: atp_rankings_handler_def wta_rankings_handler_def player_search_handler_def
        Let_def set_array_sort ranking_entries_movement collect_players_movement
      split: sum.splits)

theorem movement_is_previousRank_minus_rank_witness:
  "atp_rankings_handler ex_net ex_now 1 = Inr (ex_rankings_output ''ATP'' [ex_alcaraz_entry])
   \<and> ranking_entry.movement ex_alcaraz_entry = 1
   \<and> ranking_entry.previousRank ex_alcaraz_entry - ranking_entry.rank ex_alcaraz_entry = 1
   \<and> wta_rankings_handler ex_net ex_now 1 = Inr (ex_rankings_output ''WTA'' [ex_sabalenka_entry])
   \<and> ranking_entry.movement ex_sabalenka_entry = 0
   \<and> ranking_entry.previousRank ex_sabalenka_entry - ranking_entry.rank ex_sabalenka_entry = 0
   \<and> player_search_handler ex_net ex_now ''DJOK'' ''both'' =
        Inr (ex_search_output ''DJOK'' [hit_of ''ATP'' ex_djokovic])
   \<and> search_hit.movement (hit_of ''ATP'' ex_djokovic) = - 1
   \<and> search_hit.previousRank (hit_of ''ATP'' ex_djokovic)
        - search_hit.rank (hit_of ''ATP'' ex_djokovic) = - 1"
  using movement_is_previousRank_minus_rank [of ex_net ex_now 1
      "ex_rankings_output ''ATP'' [ex_alcaraz_entry]"
      "ex_rankings_output ''WTA'' [ex_sabalenka_entry]"
      "''DJOK''" "''both''" "ex_search_output ''DJOK'' [hit_of ''ATP'' ex_djokovic]"]
    atp_rankings_example wta_rankings_example player_search_example
  by (simp add: ex_alcaraz_entry_def ex_sabalenka_entry_def hit_of_def ex_djokovic_def ex_rank_def)

text \<open>For a limit that is not negative, the ranking handlers return at most
  \<open>min limit 100\<close> entries.\<close>

lemma length_ranking_entries:
  "0 \<le> limit \<Longrightarrow> int (length (ranking_entries data limit)) \<le> limit"
  by (auto simp: ranking_entries_def or_list_def length_slice_0 split: option.splits)

lemma rankings_length_le_limit:
  "0 \<le> limit \<Longrightarrow> atp_rankings_handler net now limit = Inr out \<or>
      wta_rankings_handler net now limit = Inr out \<Longrightarrow>
     int (length (rankings_output.rankings out)) \<le> min limit 100"
  using length_ranking_entries [of "min limit 100"]
  by (auto simp: atp_rankings_handler_def wta_rankings_handler_def Let_def split: sum.splits)

lemma rankings_default_limit:
  "raw ''limit'' = JUndefined \<Longrightarrow>
     atp_rankings_entrypoint net now raw = atp_rankings_handler net now 50
     \<and> wta_rankings_entrypoint net now raw = wta_rankings_handler net now 50"
  by (simp add: atp_rankings_entrypoint_def wta_rankings_entrypoint_def z_number_default_def)

text \<open>
  Claim C2. The length of the list that a ranking handler returns is at most
  \<open>min limit 100\<close>. The code does not keep this for a negative limit: the schema accepts
  \<open>-1\<close>, \<open>slice(0, -1)\<close> drops only the last entry, and of 102 upstream entries 101 are
  returned.
\<close>

theorem atp_rankings_negative_limit:
  "atp_rankings_entrypoint ex_long_net ex_now (ex_limit_input (- 1)) =
     Inr (ex_rankings_output ''ATP'' (replicate 101 ex_alcaraz_entry))
   \<and> totalRanked (ex_rankings_output ''ATP'' (replicate 101 ex_alcaraz_entry)) = 101
   \<and> min (- 1) 100 = (- 1 :: int)"
  by (simp add: atp_rankings_entrypoint_def z_number_default_def atp_rankings_handler_def
      fetchESPN_def ok_def json_def ranking_entries_def first_ranks_def first_def or_list_def
      slice_def ex_long_net_def ex_limit_input_def ex_rankings_data_def ex_rankings_output_def
      ex_alcaraz_entry_def ex_alcaraz_def ex_rank_def ex_athlete_def)

text \<open>
  Claim C9. In the response of a ranking handler, \<open>totalRanked\<close> is the length of the
  returned list, which is the truncated one.
\<close>

theorem totalRanked_is_returned_length:
  "(atp_rankings_handler net now limit = Inr out \<longrightarrow>
      totalRanked out = length (rankings_output.rankings out))
   \<and> (wta_rankings_handler net now limit = Inr out' \<longrightarrow>
      totalRanked out' = length (rankings_output.rankings out'))"
  by (auto simp: atp_rankings_handler_def wta_rankings_handler_def Let_def split: sum.splits)

theorem totalRanked_is_returned_length_witness:
  "atp_rankings_handler ex_net ex_now 1 = Inr (ex_rankings_output ''ATP'' [ex_alcaraz_entry])
   \<and> totalRanked (ex_rankings_output ''ATP'' [ex_alcaraz_entry]) = 1
   \<and> fetchESPN ex_net atp_rankings_url = Inr (ex_rankings_data [ex_alcaraz, ex_djokovic])
   \<and> wta_rankings_handler ex_net ex_now 1 = Inr (ex_rankings_output ''WTA'' [ex_sabalenka_entry])
   \<and> totalRanked (ex_rankings_output ''WTA'' [ex_sabalenka_entry]) = 1"
  using totalRanked_is_returned_length [of ex_net ex_now 1
      "ex_rankings_output ''ATP'' [ex_alcaraz_entry]"
      "ex_rankings_output ''WTA'' [ex_sabalenka_entry]"]
    atp_rankings_example wta_rankings_example
  by (simp add: ex_rankings_output_def fetchESPN_def ok_def json_def ex_net_def)


section \<open>Overview\<close>

lemma length_top5: "length (top5 data) = min 5 (length (or_list (first_ranks data)))"
  by (auto simp: top5_def or_list_def slice_0_nonneg split: option.splits)

text \<open>
  Claim C6. Whatever the upstream lists are, the overview has at most 5 players per tour
  (the first 5 of the list, or all of a shorter one), and a player of the overview is made
  of \<open>rank\<close>, \<open>name\<close> and \<open>points\<close> and of nothing else.
\<close>

theorem overview_at_most_5_per_tour:
  assumes "overview_handler net now = Inr out"
  shows "length (overview_group.players (atp out)) \<le> 5
     \<and> length (overview_group.players (wta out)) \<le> 5
     \<and> (\<forall>atpData. fetchESPN net atp_rankings_url = Inr atpData \<longrightarrow>
          length (overview_group.players (atp out)) = min 5 (length (or_list (first_ranks atpData))))
     \<and> (\<forall>wtaData. fetchESPN net wta_rankings_url = Inr wtaData \<longrightarrow>
          length (overview_group.players (wta out)) = min 5 (length (or_list (first_ranks wtaData))))
     \<and> (\<forall>p \<in> set (overview_group.players (atp out)) \<union> set (overview_group.players (wta out)).
          p = \<lparr> overview_player.rank = overview_player.rank p,
                overview_player.name = overview_player.name p,
                overview_player.points = overview_player.points p \<rparr>)"
  using assms
  by (auto simp: overview_handler_def Let_def length_top5 split: sum.splits)

theorem overview_at_most_5_per_tour_witness:
  "overview_handler ex_long_net ex_now = Inr ex_overview_output
   \<and> length (overview_group.players (atp ex_overview_output)) = 5
   \<and> length (overview_group.players (wta ex_overview_output)) = 5
   \<and> fetchESPN ex_long_net atp_rankings_url = Inr (ex_rankings_data (replicate 102 ex_alcaraz))
   \<and> fetchESPN ex_long_net wta_rankings_url = Inr (ex_rankings_data (replicate 102 ex_alcaraz))
   \<and> length (or_list (first_ranks (ex_rankings_data (replicate 102 ex_alcaraz)))) = 102"
proof -
  have run: "overview_handler ex_long_net ex_now = Inr ex_overview_output"
    by (simp add: overview_handler_def top5_def fetchESPN_def ok_def json_def first_ranks_def
        first_def or_list_def slice_def ex_long_net_def ex_rankings_data_def
        ex_overview_output_def ex_overview_player_def ex_alcaraz_def ex_rank_def ex_athlete_def)
  show ?thesis
    using overview_at_most_5_per_tour [OF run] run
    by (simp add: ex_overview_output_def fetchESPN_def ok_def json_def ex_long_net_def
        first_ranks_def first_def or_list_def ex_rankings_data_def)
qed


section \<open>News\<close>

lemma filter_seen_not_seen: "e \<in> set (filter_seen seen xs) \<Longrightarrow> article.id' e \<notin> seen"
  by (induction xs arbitrary: seen) (auto split: if_splits)

lemma set_filter_seen: "set (filter_seen seen xs) \<subseteq> set xs"
  by (induction xs arbitrary: seen) auto

lemma distinct_filter_seen: "distinct (map article.id' (filter_seen seen xs))"
proof (induction xs arbitrary: seen)
  case Nil
  show ?case by simp
next
  case (Cons a rest)
  have "article.id' a \<notin> article.id' ` set (filter_seen (insert (article.id' a) seen) rest)"
    using filter_seen_not_seen by fastforce
  with Cons show ?case by simp
qed

lemma filter_seen_find:
  "e \<in> set (filter_seen seen xs) \<Longrightarrow> find (\<lambda>b. article.id' b = article.id' e) xs = Some e"
proof (induction xs arbitrary: seen)
  case Nil
  then show ?case by simp
next
  case (Cons a rest)
  show ?case
  proof (cases "article.id' a \<in> seen")
    case True
    with Cons.prems have mem: "e \<in> set (filter_seen seen rest)" by simp
    with True have "article.id' a \<noteq> article.id' e"
      using filter_seen_not_seen by metis
    with Cons.IH [OF mem] show ?thesis by simp
  next
    case False
    show ?thesis
    proof (cases "e = a")
      case True
      then show ?thesis by simp
    next
      case e: False
      with Cons.prems False
      have mem: "e \<in> set (filter_seen (insert (article.id' a) seen) rest)" by simp
      then have "article.id' a \<noteq> article.id' e"
        using filter_seen_not_seen by fastforce
      with Cons.IH [OF mem] show ?thesis by simp
    qed
  qed
qed

lemma ids_filter_seen:
  "article.id' ` set (filter_seen seen xs) = article.id' ` set xs - seen"
  by (induction xs arbitrary: seen) auto

lemma length_filter_seen:
  "length (filter_seen {} xs) = card (article.id' ` set xs)"
proof -
  have "length (filter_seen {} xs) = length (map article.id' (filter_seen {} xs))"
    by simp
  also have "\<dots> = card (set (map article.id' (filter_seen {} xs)))"
    using distinct_filter_seen [of "{}" xs] by (simp only: distinct_card)
  also have "\<dots> = card (article.id' ` set xs)"
    by (simp add: ids_filter_seen)
  finally show ?thesis .
qed

lemma news_example:
  "promise_all (map (fetchESPN ex_news_net) (news_urls ''both'')) = Inr ex_news_results"
  by (simp add: news_urls_def fetchESPN_def ok_def json_def ex_news_net_def ex_news_results_def
      atp_news_url_def wta_news_url_def)

lemma all_articles_example:
  "allArticles ex_news_results = [ex_article ''b'' 1, ex_article ''a'' 3, ex_article ''b'' 2]"
  by (simp add: allArticles_def article_of_def or_list_def truthy_def ex_news_results_def
      ex_news_data_def ex_espn_article_def ex_article_def)

lemma sorted_articles_example:
  "sortedArticles ex_news_results = [ex_article ''a'' 3, ex_article ''b'' 2, ex_article ''b'' 1]"
  by (simp add: sortedArticles_def all_articles_example array_sort_def cmp_published_def
      ex_article_def)

lemma unique_articles_example:
  "filter_seen {} (sortedArticles ex_news_results) = [ex_article ''a'' 3, ex_article ''b'' 2]"
  by (simp add: sorted_articles_example ex_article_def)

text \<open>
  Claim C3, as stated: when two fetched lists share an id, the returned list has exactly
  one entry with that id. The truncation to the limit is applied after the deduplication,
  so a shared id can be absent from the output: with limit 1 the two feeds of the example,
  which share the id \<open>b\<close>, give the single article \<open>a\<close>.
\<close>

theorem news_shared_id_absent_counterexample:
  "news_handler ex_news_net ex_now ''both'' 1 = Inr (ex_news_output [ex_article ''a'' 3])
   \<and> count_list (map article.id' (news_output.articles (ex_news_output [ex_article ''a'' 3])))
        (Some ''b'') = 0
   \<and> count_list (map article.id' (allArticles ex_news_results)) (Some ''b'') = 2"
  by (simp add: news_handler_def news_example uniqueArticles_def unique_articles_example
      all_articles_example slice_def ex_news_output_def ex_article_def)

lemma filter_seen_append:
  "filter_seen seen (xs @ ys) =
     filter_seen seen xs @ filter_seen (seen \<union> article.id' ` set xs) ys"
proof (induction xs arbitrary: seen)
  case Nil
  show ?case by simp
next
  case (Cons a rest)
  show ?case
  proof (cases "article.id' a \<in> seen")
    case True
    then have "seen \<union> article.id' ` set (a # rest) = seen \<union> article.id' ` set rest"
      by auto
    then show ?thesis using True Cons.IH [of seen] by (simp only: filter_seen.simps append_Cons if_True)
  next
    case False
    have "seen \<union> article.id' ` set (a # rest) =
        insert (article.id' a) seen \<union> article.id' ` set rest"
      by auto
    then show ?thesis using False Cons.IH [of "insert (article.id' a) seen"]
      by (simp only: filter_seen.simps append_Cons if_False)
  qed
qed

lemma take_filter_position:
  assumes A: "\<forall>x \<in> set A. \<not> P x" and B: "\<forall>x \<in> set B. \<not> P x" and e: "P e"
  shows "length (filter P (take n (A @ e # B))) = (if length A < n then 1 else 0)"
proof (cases "length A < n")
  case True
  then obtain k where k: "n = Suc (length A + k)"
    by (auto dest: less_imp_Suc_add)
  have "take n (A @ e # B) = A @ e # take k B"
    by (simp add: k)
  moreover have "filter P A = []"
    using A by (simp add: filter_empty_conv)
  moreover have "filter P (take k B) = []"
    using B by (auto simp: filter_empty_conv dest: in_set_takeD)
  ultimately show ?thesis
    using True e by simp
next
  case False
  then have "take n (A @ e # B) = take n A"
    by simp
  moreover have "filter P (take n A) = []"
    using A by (auto simp: filter_empty_conv dest: in_set_takeD)
  ultimately show ?thesis
    using False by simp
qed

text \<open>Where the first instance of an id lands after deduplication: behind one article
  for each distinct id in front of it.\<close>

lemma filter_seen_position:
  assumes "a \<in> set xs"
  shows "length (filter (\<lambda>e. article.id' e = article.id' a) (take n (filter_seen {} xs))) =
     (if card (article.id' ` set (takeWhile (\<lambda>b. article.id' b \<noteq> article.id' a) xs)) < n
      then 1 else 0)"
proof -
  from assms have "\<exists>x \<in> set xs. article.id' x = article.id' a"
    by blast
  then obtain pre e rest where xs: "xs = pre @ e # rest"
      and e: "article.id' e = article.id' a"
      and pre: "\<forall>y \<in> set pre. article.id' y \<noteq> article.id' a"
    using split_list_first_prop [of xs "\<lambda>x. article.id' x = article.id' a"] by blast
  have tw: "takeWhile (\<lambda>b. article.id' b \<noteq> article.id' a) (pre @ e # rest) = pre"
    using pre e by (simp add: takeWhile_append2)
  from pre e have fresh: "article.id' e \<notin> article.id' ` set pre"
    by force
  let ?A = "filter_seen {} pre"
  let ?B = "filter_seen (insert (article.id' e) (article.id' ` set pre)) rest"
  have shape: "filter_seen {} (pre @ e # rest) = ?A @ e # ?B"
    using fresh by (simp add: filter_seen_append)
  have A: "\<forall>x \<in> set ?A. \<not> article.id' x = article.id' a"
    using set_filter_seen [of "{}" pre] pre by blast
  have B: "\<forall>x \<in> set ?B. \<not> article.id' x = article.id' a"
  proof
    fix x assume "x \<in> set ?B"
    then have "article.id' x \<notin> insert (article.id' e) (article.id' ` set pre)"
      by (rule filter_seen_not_seen)
    with e show "\<not> article.id' x = article.id' a" by simp
  qed
  have "length (filter (\<lambda>e. article.id' e = article.id' a) (take n (?A @ e # ?B))) =
      (if length ?A < n then 1 else 0)"
    using A B e by (rule take_filter_position)
  then show ?thesis
    unfolding xs by (simp only: shape tw length_filter_seen)
qed

text \<open>The sort of the handler is the stable sort on \<open>published\<close>, newest first.\<close>

lemma sortedArticles_sort_key:
  "sortedArticles results = sort_key (\<lambda>a. - article.published a) (allArticles results)"
  unfolding sortedArticles_def
  by (rule array_sort_key) (simp add: cmp_published_def)

lemma sortedArticles_descending:
  "sorted_wrt (\<lambda>a b. article.published b \<le> article.published a) (sortedArticles results)"
proof -
  have "sorted (map (\<lambda>a. - article.published a) (sortedArticles results))"
    by (simp only: sortedArticles_sort_key sorted_sort_key)
  then show ?thesis by (simp add: sorted_map)
qed

lemma find_first_is_greatest:
  assumes "sorted_wrt (\<lambda>a b. f b \<le> f a) xs"
      and "find P xs = Some e" and "b \<in> set xs" and "P b"
  shows "f b \<le> (f e :: int)"
  using assms
proof (induction xs)
  case Nil
  then show ?case by simp
next
  case (Cons x xs)
  show ?case
  proof (cases "P x")
    case True
    with Cons.prems have "e = x" by simp
    with Cons.prems show ?thesis by auto
  next
    case False
    with Cons.prems have "find P xs = Some e" and "b \<in> set xs" by auto
    with Cons show ?thesis by simp
  qed
qed

text \<open>
  Claim C3, amended. For every news request whose fetches succeed (published dates being
  parseable): no id occurs twice in the returned articles; every returned article is a
  fetched one and is the newest of its id, no fetched article with the same id having a
  later published date; more precisely it is the instance of its id that comes first in
  the list of all fetched articles sorted by published descending. For a limit that is
  not negative, a fetched id occurs once in the returned articles when fewer than
  \<open>min limit 25\<close> distinct ids come before its first instance in that sorted list, and
  does not occur otherwise.
\<close>

theorem news_dedupe_newest_first_wins:
  assumes "promise_all (map (fetchESPN net) (news_urls t)) = Inr results"
  shows "\<exists>out. news_handler net now t limit = Inr out
     \<and> distinct (map article.id' (news_output.articles out))
     \<and> (\<forall>e \<in> set (news_output.articles out).
          e \<in> set (allArticles results)
          \<and> (\<forall>b \<in> set (allArticles results).
               article.id' b = article.id' e \<longrightarrow> article.published b \<le> article.published e)
          \<and> find (\<lambda>b. article.id' b = article.id' e) (sortedArticles results) = Some e)
     \<and> mset (sortedArticles results) = mset (allArticles results)
     \<and> sorted_wrt (\<lambda>a b. article.published b \<le> article.published a) (sortedArticles results)
     \<and> (0 \<le> limit \<longrightarrow>
          (\<forall>a \<in> set (allArticles results).
             length (filter (\<lambda>e. article.id' e = article.id' a) (news_output.articles out)) =
               (if int (card (article.id' ` set (takeWhile (\<lambda>b. article.id' b \<noteq> article.id' a)
                     (sortedArticles results)))) < min limit 25
                then 1 else 0)))"
proof -
  let ?sorted = "sortedArticles results"
  let ?uniq = "filter_seen {} ?sorted"
  let ?res = "uniqueArticles results (min limit 25)"
  have set_sorted: "set ?sorted = set (allArticles results)"
    by (simp add: sortedArticles_def set_array_sort)
  have perm: "mset ?sorted = mset (allArticles results)"
    by (simp add: sortedArticles_def mset_array_sort)
  have run: "news_handler net now t limit =
      Inr \<lparr> news_output.tour = t, count' = length ?res, news_output.articles = ?res,
            news_output.fetchedAt = now \<rparr>"
    using assms by (simp add: news_handler_def Let_def)
  have d: "distinct (map article.id' ?res)"
    unfolding uniqueArticles_def by (rule distinct_map_slice) (rule distinct_filter_seen)
  have f: "e \<in> set (allArticles results)
      \<and> (\<forall>b \<in> set (allArticles results).
           article.id' b = article.id' e \<longrightarrow> article.published b \<le> article.published e)
      \<and> find (\<lambda>b. article.id' b = article.id' e) ?sorted = Some e"
    if "e \<in> set ?res" for e
  proof -
    from that have u: "e \<in> set ?uniq"
      unfolding uniqueArticles_def using set_slice by fastforce
    then have fetched: "e \<in> set (allArticles results)"
      using set_filter_seen [of "{}" ?sorted] set_sorted by auto
    from u have first: "find (\<lambda>b. article.id' b = article.id' e) ?sorted = Some e"
      by (rule filter_seen_find)
    have "article.published b \<le> article.published e"
      if "b \<in> set (allArticles results)" and "article.id' b = article.id' e" for b
    proof (rule find_first_is_greatest [OF sortedArticles_descending first])
      show "b \<in> set ?sorted" using that(1) set_sorted by simp
      show "article.id' b = article.id' e" by (rule that(2))
    qed
    with fetched first show ?thesis by blast
  qed
  have c: "length (filter (\<lambda>e. article.id' e = article.id' a) ?res) =
      (if int (card (article.id' ` set (takeWhile (\<lambda>b. article.id' b \<noteq> article.id' a) ?sorted)))
            < min limit 25
       then 1 else 0)"
    if nonneg: "0 \<le> limit" and a: "a \<in> set (allArticles results)" for a
  proof -
    let ?before = "card (article.id' ` set (takeWhile (\<lambda>b. article.id' b \<noteq> article.id' a) ?sorted))"
    from nonneg have cut: "?res = take (nat (min limit 25)) ?uniq"
      unfolding uniqueArticles_def by (intro slice_0_nonneg) simp
    have "a \<in> set ?sorted"
      using a set_sorted by simp
    then have "length (filter (\<lambda>e. article.id' e = article.id' a) (take (nat (min limit 25)) ?uniq)) =
        (if ?before < nat (min limit 25) then 1 else 0)"
      by (rule filter_seen_position)
    moreover have "?before < nat (min limit 25) \<longleftrightarrow> int ?before < min limit 25"
      using nonneg by linarith
    ultimately show ?thesis
      by (simp only: cut)
  qed
  show ?thesis
  proof (intro exI conjI)
    show "news_handler net now t limit =
      Inr \<lparr> news_output.tour = t, count' = length ?res, news_output.articles = ?res,
            news_output.fetchedAt = now \<rparr>"
      by (rule run)
  qed (use d f c perm sortedArticles_descending in simp_all)
qed

theorem news_dedupe_newest_first_wins_witness:
  "promise_all (map (fetchESPN ex_news_net) (news_urls ''both'')) = Inr ex_news_results
   \<and> news_handler ex_news_net ex_now ''both'' 10 =
       Inr (ex_news_output [ex_article ''a'' 3, ex_article ''b'' 2])
   \<and> news_handler ex_news_net ex_now ''both'' 1 = Inr (ex_news_output [ex_article ''a'' 3])
   \<and> allArticles ex_news_results = [ex_article ''b'' 1, ex_article ''a'' 3, ex_article ''b'' 2]
   \<and> sortedArticles ex_news_results = [ex_article ''a'' 3, ex_article ''b'' 2, ex_article ''b'' 1]
   \<and> map article.published [ex_article ''b'' 1, ex_article ''b'' 2] = [1, 2]
   \<and> card (article.id' ` set (takeWhile (\<lambda>b. article.id' b \<noteq> article.id' (ex_article ''b'' 1))
        (sortedArticles ex_news_results))) = 1"
proof -
  have run10: "news_handler ex_news_net ex_now ''both'' 10 =
       Inr (ex_news_output [ex_article ''a'' 3, ex_article ''b'' 2])"
    by (simp add: news_handler_def news_example uniqueArticles_def unique_articles_example
        slice_def ex_news_output_def)
  have run1: "news_handler ex_news_net ex_now ''both'' 1 = Inr (ex_news_output [ex_article ''a'' 3])"
    by (simp add: news_handler_def news_example uniqueArticles_def unique_articles_example
        slice_def ex_news_output_def)
  have before: "card (article.id' ` set (takeWhile
      (\<lambda>b. article.id' b \<noteq> article.id' (ex_article ''b'' 1))
      (sortedArticles ex_news_results))) = 1"
    by (simp add: sorted_articles_example ex_article_def)
  have pub: "map article.published [ex_article ''b'' 1, ex_article ''b'' 2] = [1, 2]"
    by (simp add: ex_article_def)
  from news_dedupe_newest_first_wins [OF news_example, of ex_now 10]
  obtain out10 where out10: "news_handler ex_news_net ex_now ''both'' 10 = Inr out10"
    by blast
  from news_dedupe_newest_first_wins [OF news_example, of ex_now 1]
  obtain out1 where out1: "news_handler ex_news_net ex_now ''both'' 1 = Inr out1"
    by blast
  from out10 run10 have "out10 = ex_news_output [ex_article ''a'' 3, ex_article ''b'' 2]"
    by simp
  moreover from out1 run1 have "out1 = ex_news_output [ex_article ''a'' 3]"
    by simp
  ultimately show ?thesis
    using out10 out1 news_example all_articles_example sorted_articles_example before pub
    by simp
qed


section \<open>Live matches\<close>

text \<open>Inserting with the comparator of the handler keeps live matches in front.\<close>

lemma live_first_insert_sorted:
  "sorted_wrt (\<lambda>a b. isLive b \<longrightarrow> isLive a) xs \<Longrightarrow>
     sorted_wrt (\<lambda>a b. isLive b \<longrightarrow> isLive a) (insert_sorted cmp_match x xs)"
proof (induction xs)
  case Nil
  show ?case by simp
next
  case (Cons y ys)
  show ?case
  proof (cases "cmp_match x y \<le> 0")
    case True
    then have "isLive y \<longrightarrow> isLive x"
      by (auto simp: cmp_match_def split: if_splits)
    with Cons.prems True show ?thesis by auto
  next
    case False
    then have "isLive x \<longrightarrow> isLive y"
      by (auto simp: cmp_match_def split: if_splits)
    with Cons False show ?thesis by (auto simp: set_insert_sorted)
  qed
qed

lemma live_first_array_sort:
  "sorted_wrt (\<lambda>a b. isLive b \<longrightarrow> isLive a) (array_sort cmp_match xs)"
proof (induction xs)
  case Nil
  show ?case by (simp add: array_sort_def)
next
  case (Cons x xs)
  then have "sorted_wrt (\<lambda>a b. isLive b \<longrightarrow> isLive a)
      (insert_sorted cmp_match x (array_sort cmp_match xs))"
    by (rule live_first_insert_sorted)
  then show ?case by (simp add: array_sort_def)
qed

lemma live_before_others:
  assumes "sorted_wrt (\<lambda>a b. isLive b \<longrightarrow> isLive a) ms"
      and "i < length ms" and "j < length ms"
      and "isLive (ms ! i)" and "\<not> isLive (ms ! j)"
  shows "i < j"
proof (rule ccontr)
  assume "\<not> i < j"
  with assms(4,5) have "j < i" by (cases "i = j") auto
  with assms(1,2) have "isLive (ms ! i) \<longrightarrow> isLive (ms ! j)"
    by (simp add: sorted_wrt_iff_nth_less)
  with assms(4,5) show False by simp
qed

lemma live_matches_example:
  "live_matches_handler ex_live_net ex_now ''both'' = Inr ex_live_output"
  by (simp add: live_matches_handler_def live_urls_def fetch_tour_def fetchESPN_def ok_def
      json_def collect_matches_def match_of_def or_list_def or_str_def or_false_def
      array_sort_def cmp_match_def ex_live_net_def ex_event_def ex_competition_def
      ex_live_output_def ex_match_def atp_scoreboard_url_def wta_scoreboard_url_def)

text \<open>
  Claim C4. In the response of the live-matches handler every match with \<open>isLive\<close> stands
  before every match without, \<open>liveCount\<close> is the number of matches with \<open>isLive\<close>, and
  it is \<open>totalMatches\<close> minus the number of the others.
\<close>

theorem live_matches_partitioned_and_counted:
  assumes "live_matches_handler net now t = Inr out"
  shows "(\<forall>i j. i < length (matches out) \<and> j < length (matches out)
            \<and> isLive (matches out ! i) \<and> \<not> isLive (matches out ! j) \<longrightarrow> i < j)
     \<and> liveCount out = length (filter isLive (matches out))
     \<and> int (liveCount out) =
         int (totalMatches out) - int (length (filter (\<lambda>m. \<not> isLive m) (matches out)))"
proof -
  from assms obtain results where
    out: "out = \<lparr> live_output.tour = t,
        totalMatches = length (array_sort cmp_match (collect_matches results)),
        liveCount = length (filter isLive (array_sort cmp_match (collect_matches results))),
        matches = array_sort cmp_match (collect_matches results),
        live_output.fetchedAt = now \<rparr>"
    by (auto simp: live_matches_handler_def Let_def split: sum.splits)
  have part: "sorted_wrt (\<lambda>a b. isLive b \<longrightarrow> isLive a) (matches out)"
    by (simp add: out live_first_array_sort)
  have split: "length (filter isLive (matches out))
      + length (filter (\<lambda>m. \<not> isLive m) (matches out)) = length (matches out)"
    by (rule sum_length_filter_compl)
  have "liveCount out = length (filter isLive (matches out))"
    and "totalMatches out = length (matches out)"
    by (simp_all add: out)
  with split live_before_others [OF part] show ?thesis by auto
qed

theorem live_matches_partitioned_and_counted_witness:
  "live_matches_handler ex_live_net ex_now ''both'' = Inr ex_live_output
   \<and> map isLive (matches ex_live_output) = [True, True, False, False]
   \<and> liveCount ex_live_output = 2
   \<and> totalMatches ex_live_output = 4
   \<and> length (filter isLive (matches ex_live_output)) = 2"
  using live_matches_partitioned_and_counted [OF live_matches_example] live_matches_example
  by (simp add: ex_live_output_def ex_match_def)


section \<open>Player search\<close>

lemma startsWith_iff: "startsWith s q \<longleftrightarrow> (\<exists>post. s = q @ post)"
  by (induction s q rule: startsWith.induct) auto

lemma includes_str_iff: "includes_str s q \<longleftrightarrow> (\<exists>pre post. s = pre @ q @ post)"
proof (induction s)
  case Nil
  show ?case by (cases q) auto
next
  case (Cons c cs)
  show ?case
  proof
    assume "includes_str (c # cs) q"
    then consider "startsWith (c # cs) q" | "includes_str cs q" by auto
    then show "\<exists>pre post. c # cs = pre @ q @ post"
    proof cases
      case 1
      then obtain post where "c # cs = [] @ q @ post"
        by (auto simp: startsWith_iff)
      then show ?thesis by blast
    next
      case 2
      with Cons obtain pre post where "cs = pre @ q @ post" by blast
      then have "c # cs = (c # pre) @ q @ post" by simp
      then show ?thesis by blast
    qed
  next
    assume "\<exists>pre post. c # cs = pre @ q @ post"
    then obtain pre post where eq: "c # cs = pre @ q @ post" by blast
    show "includes_str (c # cs) q"
    proof (cases pre)
      case Nil
      with eq have "startsWith (c # cs) q" by (simp only: startsWith_iff) auto
      then show ?thesis by simp
    next
      case (Cons p ps)
      with eq have "cs = ps @ q @ post" by simp
      with Cons.IH have "includes_str cs q" by blast
      then show ?thesis by simp
    qed
  qed
qed

lemma includes_str_empty: "includes_str s []"
  by (induction s) auto

lemma toLowerCase_or_str:
  "or_str (map_option toLowerCase x) [] = toLowerCase (or_str x [])"
  by (cases x) (auto simp: or_str_def toLowerCase_def)

lemma matches_query_iff:
  "matches_query lq r \<longleftrightarrow>
     (\<exists>pre post. toLowerCase (or_str (search_hit.name (hit_of lbl r)) []) = pre @ lq @ post)
     \<or> (\<exists>pre post. toLowerCase (or_str (search_hit.firstName (hit_of lbl r)) []) = pre @ lq @ post)
     \<or> (\<exists>pre post. toLowerCase (or_str (search_hit.lastName (hit_of lbl r)) []) = pre @ lq @ post)"
  by (simp add: matches_query_def Let_def hit_of_def toLowerCase_or_str includes_str_iff)

lemma collect_players_match:
  assumes "p \<in> set (collect_players lq results)"
  shows "(\<exists>pre post. toLowerCase (or_str (search_hit.name p) []) = pre @ lq @ post)
     \<or> (\<exists>pre post. toLowerCase (or_str (search_hit.firstName p) []) = pre @ lq @ post)
     \<or> (\<exists>pre post. toLowerCase (or_str (search_hit.lastName p) []) = pre @ lq @ post)"
proof -
  from assms obtain lbl r where "p = hit_of lbl r" and "matches_query lq r"
    by (auto simp: collect_players_def)
  then show ?thesis using matches_query_iff [of lq r lbl] by simp
qed

lemma present_if_contains:
  assumes "toLowerCase (or_str x []) = pre @ toLowerCase q @ post" and "q \<noteq> []"
  shows "\<exists>s. x = Some s \<and> toLowerCase s = pre @ toLowerCase q @ post"
proof -
  from assms have "or_str x [] \<noteq> []" by (auto simp: toLowerCase_def)
  then have "x = Some (or_str x [])"
    by (cases x) (auto simp: or_str_def split: if_splits)
  with assms(1) show ?thesis by metis
qed

lemma collect_players_empty:
  "\<forall>r \<in> set results. or_list (first_ranks (snd r)) = [] \<Longrightarrow> collect_players lq results = []"
  by (auto simp: collect_players_def)

lemma collect_players_all:
  "collect_players [] results =
     concat (map (\<lambda>r. map (hit_of (fst r)) (or_list (first_ranks (snd r)))) results)"
  by (simp add: collect_players_def matches_query_def Let_def includes_str_empty split_def)

lemma sorted_by_rank: "sorted (map search_hit.rank (array_sort cmp_rank xs))"
proof -
  have "array_sort cmp_rank xs = sort_key search_hit.rank xs"
    by (rule array_sort_key) (simp add: cmp_rank_def)
  then show ?thesis by simp
qed

lemma search_results_example:
  "promise_all (map (fetch_tour ex_net) (search_urls ''both'')) = Inr ex_search_results"
  by (simp add: search_urls_def fetch_tour_def fetchESPN_def ok_def json_def ex_net_def
      ex_search_results_def atp_rankings_url_def wta_rankings_url_def)

lemma empty_results_example:
  "promise_all (map (fetch_tour ex_empty_net) (search_urls ''both'')) = Inr ex_empty_results"
  by (simp add: search_urls_def fetch_tour_def fetchESPN_def ok_def json_def ex_empty_net_def
      ex_empty_results_def)

lemma search_k_example:
  "player_search_handler ex_net ex_now ''K'' ''both'' =
     Inr (ex_search_output ''K''
       [hit_of ''WTA'' ex_sabalenka, hit_of ''ATP'' ex_djokovic, hit_of ''WTA'' ex_swiatek])"
  by (simp add: player_search_handler_def search_results_example ex_search_results_def
      collect_players_def first_ranks_def first_def or_list_def matches_query_def
      toLowerCase_def lower_char_def or_str_def array_sort_def cmp_rank_def hit_of_def
      ex_rankings_data_def ex_search_output_def ex_alcaraz_def ex_djokovic_def
      ex_sabalenka_def ex_swiatek_def ex_rank_def ex_athlete_def Let_def)

lemma search_all_example:
  "player_search_handler ex_net ex_now [] ''both'' =
     Inr (ex_search_output []
       [hit_of ''ATP'' ex_alcaraz, hit_of ''WTA'' ex_sabalenka,
        hit_of ''ATP'' ex_djokovic, hit_of ''WTA'' ex_swiatek])"
  by (simp add: player_search_handler_def search_results_example ex_search_results_def
      collect_players_def first_ranks_def first_def or_list_def matches_query_def
      toLowerCase_def or_str_def array_sort_def cmp_rank_def hit_of_def
      ex_rankings_data_def ex_search_output_def ex_alcaraz_def ex_djokovic_def
      ex_sabalenka_def ex_swiatek_def ex_rank_def ex_athlete_def Let_def)

lemma search_nothing_example:
  "player_search_handler ex_empty_net ex_now ''K'' ''both'' = Inr (ex_search_output ''K'' [])"
  by (simp add: player_search_handler_def empty_results_example ex_empty_results_def
      collect_players_def first_ranks_def first_def or_list_def array_sort_def
      ex_rankings_data_def ex_search_output_def Let_def)

text \<open>
  Claim C5. For a player-search request with query \<open>q\<close> whose fetches succeed: the
  lower-cased \<open>name\<close>, \<open>firstName\<close> or \<open>lastName\<close> of every returned player contains
  the lower-cased \<open>q\<close> (an absent field counts as the empty string, which only the empty
  query can match: for any other query the matching field is present); the players are
  sorted ascending by \<open>rank\<close>; and when the ranking list of every selected tour is
  empty, \<open>found\<close> is 0 and \<open>players\<close> is empty.
\<close>

theorem player_search_matches_sorted:
  assumes "promise_all (map (fetch_tour net) (search_urls t)) = Inr results"
  shows "\<exists>out. player_search_handler net now q t = Inr out
     \<and> (\<forall>p \<in> set (search_output.players out).
          (\<exists>pre post. toLowerCase (or_str (search_hit.name p) []) = pre @ toLowerCase q @ post)
          \<or> (\<exists>pre post. toLowerCase (or_str (search_hit.firstName p) []) = pre @ toLowerCase q @ post)
          \<or> (\<exists>pre post. toLowerCase (or_str (search_hit.lastName p) []) = pre @ toLowerCase q @ post))
     \<and> (q \<noteq> [] \<longrightarrow>
          (\<forall>p \<in> set (search_output.players out).
             \<exists>s pre post.
               (search_hit.name p = Some s \<or> search_hit.firstName p = Some s
                  \<or> search_hit.lastName p = Some s)
               \<and> toLowerCase s = pre @ toLowerCase q @ post))
     \<and> sorted (map search_hit.rank (search_output.players out))
     \<and> ((\<forall>r \<in> set results. or_list (first_ranks (snd r)) = []) \<longrightarrow>
          found out = 0 \<and> search_output.players out = [])"
proof -
  let ?ps = "collect_players (toLowerCase q) results"
  have run: "player_search_handler net now q t =
      Inr \<lparr> query = q, search_output.tour = t, found = length ?ps,
            search_output.players = array_sort cmp_rank ?ps, search_output.fetchedAt = now \<rparr>"
    using assms by (simp add: player_search_handler_def Let_def)
  have m: "(\<exists>pre post. toLowerCase (or_str (search_hit.name p) []) = pre @ toLowerCase q @ post)
      \<or> (\<exists>pre post. toLowerCase (or_str (search_hit.firstName p) []) = pre @ toLowerCase q @ post)
      \<or> (\<exists>pre post. toLowerCase (or_str (search_hit.lastName p) []) = pre @ toLowerCase q @ post)"
    if "p \<in> set (array_sort cmp_rank ?ps)" for p
    using that collect_players_match [of p "toLowerCase q" results]
    by (simp only: set_array_sort)
  have n: "\<exists>s pre post.
      (search_hit.name p = Some s \<or> search_hit.firstName p = Some s
         \<or> search_hit.lastName p = Some s)
      \<and> toLowerCase s = pre @ toLowerCase q @ post"
    if p: "p \<in> set (array_sort cmp_rank ?ps)" and q: "q \<noteq> []" for p
  proof -
    from m [OF p] consider
        (a) pre post where
          "toLowerCase (or_str (search_hit.name p) []) = pre @ toLowerCase q @ post"
      | (b) pre post where
          "toLowerCase (or_str (search_hit.firstName p) []) = pre @ toLowerCase q @ post"
      | (c) pre post where
          "toLowerCase (or_str (search_hit.lastName p) []) = pre @ toLowerCase q @ post"
      by blast
    then show ?thesis
    proof cases
      case a
      from present_if_contains [OF a q] show ?thesis by blast
    next
      case b
      from present_if_contains [OF b q] show ?thesis by blast
    next
      case c
      from present_if_contains [OF c q] show ?thesis by blast
    qed
  qed
  have e: "length ?ps = 0 \<and> array_sort cmp_rank ?ps = []"
    if "\<forall>r \<in> set results. or_list (first_ranks (snd r)) = []"
    using collect_players_empty [OF that] by (simp add: array_sort_Nil)
  have s: "sorted (map search_hit.rank (array_sort cmp_rank ?ps))"
    by (rule sorted_by_rank)
  show ?thesis
  proof (intro exI conjI)
    show "player_search_handler net now q t =
      Inr \<lparr> query = q, search_output.tour = t, found = length ?ps,
            search_output.players = array_sort cmp_rank ?ps, search_output.fetchedAt = now \<rparr>"
      by (rule run)
  qed (use m n e s in \<open>simp_all add: array_sort_Nil\<close>)
qed

theorem player_search_matches_sorted_witness:
  "promise_all (map (fetch_tour ex_net) (search_urls ''both'')) = Inr ex_search_results
   \<and> player_search_handler ex_net ex_now ''K'' ''both'' =
       Inr (ex_search_output ''K''
         [hit_of ''WTA'' ex_sabalenka, hit_of ''ATP'' ex_djokovic, hit_of ''WTA'' ex_swiatek])
   \<and> map search_hit.rank
       [hit_of ''WTA'' ex_sabalenka, hit_of ''ATP'' ex_djokovic, hit_of ''WTA'' ex_swiatek] = [1, 2, 2]
   \<and> promise_all (map (fetch_tour ex_empty_net) (search_urls ''both'')) = Inr ex_empty_results
   \<and> map (\<lambda>r. or_list (first_ranks (snd r))) ex_empty_results = [[], []]
   \<and> player_search_handler ex_empty_net ex_now ''K'' ''both'' = Inr (ex_search_output ''K'' [])
   \<and> found (ex_search_output ''K'' []) = 0"
  using player_search_matches_sorted [OF search_results_example, of ex_now "''K''"]
    player_search_matches_sorted [OF empty_results_example, of ex_now "''K''"]
    search_results_example empty_results_example search_k_example search_nothing_example
  by (simp add: hit_of_def ex_sabalenka_def ex_djokovic_def ex_swiatek_def ex_rank_def
      ex_empty_results_def ex_rankings_data_def first_ranks_def first_def or_list_def
      ex_search_output_def)

text \<open>
  Claim C8, as stated: the player-search entrypoint rejects the empty query string before
  any upstream call. The schema is \<open>z.string()\<close>, which accepts the empty string: the
  request is handed to the handler, which fetches both ranking lists and answers.
\<close>

theorem player_search_empty_query_counterexample:
  "z_string (ex_query_input (JStr []) ''query'') = Inr []
   \<and> player_search_entrypoint ex_net ex_now (ex_query_input (JStr [])) =
       Inr (ex_search_output []
         [hit_of ''ATP'' ex_alcaraz, hit_of ''WTA'' ex_sabalenka,
          hit_of ''ATP'' ex_djokovic, hit_of ''WTA'' ex_swiatek])"
  by (simp add: player_search_entrypoint_def z_string_def z_tour_def ex_query_input_def
      search_all_example)

text \<open>
  Claim C8, amended. The player-search entrypoint requires \<open>query\<close> to be a string: a
  request whose \<open>query\<close> is absent or not a string is rejected as an input schema violation
  whatever the upstream is (no upstream call decides it); a request whose \<open>query\<close> is a
  string, the empty one included, and whose \<open>tour\<close> is valid is handed to the handler.
\<close>

theorem player_search_query_must_be_string:
  "((\<forall>s. raw ''query'' \<noteq> JStr s) \<longrightarrow>
       (\<forall>net' now'. player_search_entrypoint net' now' raw = Inl ZodError))
   \<and> (\<forall>s tr. raw ''query'' = JStr s \<and> z_tour (raw ''tour'') = Inr tr \<longrightarrow>
       player_search_entrypoint net now raw = player_search_handler net now s tr)"
  by (auto simp: player_search_entrypoint_def z_string_def split: jvalue.splits)

theorem player_search_query_must_be_string_witness:
  "player_search_entrypoint ex_net ex_now (ex_query_input JUndefined) = Inl ZodError
   \<and> player_search_entrypoint ex_down_net ex_now (ex_query_input JUndefined) = Inl ZodError
   \<and> ex_query_input (JStr ''K'') ''query'' = JStr ''K''
   \<and> z_tour (ex_query_input (JStr ''K'') ''tour'') = Inr ''both''
   \<and> player_search_entrypoint ex_net ex_now (ex_query_input (JStr ''K'')) =
       player_search_handler ex_net ex_now ''K'' ''both''"
  using player_search_query_must_be_string [of "ex_query_input JUndefined" ex_net ex_now]
    player_search_query_must_be_string [of "ex_query_input (JStr ''K'')" ex_net ex_now]
  by (simp add: ex_query_input_def z_tour_def)

text \<open>
  Claim C10. For the empty query string the player-search entrypoint does not reject the
  request: it returns every entry of the ranking list of every selected tour (the
  returned players are a permutation of all upstream entries), and \<open>found\<close> is their number.
\<close>

theorem player_search_empty_query_returns_all:
  assumes "raw ''query'' = JStr []"
      and "z_tour (raw ''tour'') = Inr tr"
      and "promise_all (map (fetch_tour net) (search_urls tr)) = Inr results"
  shows "\<exists>out. player_search_entrypoint net now raw = Inr out
     \<and> mset (search_output.players out) =
         mset (concat (map (\<lambda>r. map (hit_of (fst r)) (or_list (first_ranks (snd r)))) results))
     \<and> found out = length (concat (map (\<lambda>r. or_list (first_ranks (snd r))) results))"
proof -
  let ?all = "concat (map (\<lambda>r. map (hit_of (fst r)) (or_list (first_ranks (snd r)))) results)"
  have "player_search_entrypoint net now raw = player_search_handler net now [] tr"
    using assms(1,2) by (simp add: player_search_entrypoint_def z_string_def)
  also have "\<dots> = Inr \<lparr> query = [], search_output.tour = tr, found = length ?all,
      search_output.players = array_sort cmp_rank ?all, search_output.fetchedAt = now \<rparr>"
    using assms(3)
    by (simp add: player_search_handler_def Let_def toLowerCase_def collect_players_all)
  finally have run: "player_search_entrypoint net now raw =
      Inr \<lparr> query = [], search_output.tour = tr, found = length ?all,
            search_output.players = array_sort cmp_rank ?all, search_output.fetchedAt = now \<rparr>" .
  have len: "length ?all = length (concat (map (\<lambda>r. or_list (first_ranks (snd r))) results))"
    by (simp add: length_concat comp_def)
  from run len show ?thesis by (simp add: mset_array_sort)
qed

theorem player_search_empty_query_returns_all_witness:
  "ex_query_input (JStr []) ''query'' = JStr []
   \<and> z_tour (ex_query_input (JStr []) ''tour'') = Inr ''both''
   \<and> promise_all (map (fetch_tour ex_net) (search_urls ''both'')) = Inr ex_search_results
   \<and> player_search_entrypoint ex_net ex_now (ex_query_input (JStr [])) =
       Inr (ex_search_output []
         [hit_of ''ATP'' ex_alcaraz, hit_of ''WTA'' ex_sabalenka,
          hit_of ''ATP'' ex_djokovic, hit_of ''WTA'' ex_swiatek])
   \<and> concat (map (\<lambda>r. or_list (first_ranks (snd r))) ex_search_results) =
       [ex_alcaraz, ex_djokovic, ex_sabalenka, ex_swiatek]"
proof -
  have q: "ex_query_input (JStr []) ''query'' = JStr []"
    and tr: "z_tour (ex_query_input (JStr []) ''tour'') = Inr ''both''"
    by (simp_all add: ex_query_input_def z_tour_def)
  have run: "player_search_entrypoint ex_net ex_now (ex_query_input (JStr [])) =
      Inr (ex_search_output []
        [hit_of ''ATP'' ex_alcaraz, hit_of ''WTA'' ex_sabalenka,
         hit_of ''ATP'' ex_djokovic, hit_of ''WTA'' ex_swiatek])"
    by (simp add: player_search_entrypoint_def z_string_def q tr search_all_example)
  have up: "concat (map (\<lambda>r. or_list (first_ranks (snd r))) ex_search_results) =
      [ex_alcaraz, ex_djokovic, ex_sabalenka, ex_swiatek]"
    by (simp add: ex_search_results_def ex_rankings_data_def first_ranks_def first_def
        or_list_def)
  show ?thesis
    using player_search_empty_query_returns_all [OF q tr search_results_example, of ex_now]
      q tr search_results_example run up
    by simp
qed

end
